theory Spec2Isabelle
  imports Main "HOL-Library.AList" "HOL-Library.Char_ord" "HOL-Library.List_Lexorder"
begin

section \<open>Data model of marv\_node/node.py\<close>

text \<open>
  A Node is a Python object with identity; the model keeps all nodes in a store (a list),
  and the address of a node is its index there. Python values that the engine only passes
  on (plain input values, stream handles, pulled messages) are \<open>'a val\<close>: \<open>VNone\<close> is
  Python's None, \<open>VAtom\<close> an opaque object that is not iterable, \<open>VList\<close> a list.
\<close>

type_synonym addr = nat

datatype 'a val = VNone | VAtom 'a | VList "'a val list"

datatype error = InputNameCollision string | AssertionError | TypeError

text \<open>
  class StreamSpec: \<open>node\<close>, \<open>name\<close>, and \<open>key\<close>, the tuple \<open>(node.key,)\<close> or
  \<open>(node.key, name)\<close>, computed when the StreamSpec is made. \<open>args\<close> is \<open>(node,)\<close> or
  \<open>(node, name)\<close>, that is \<open>ss_node\<close> and \<open>ss_name\<close>.
\<close>

record StreamSpec =
  ss_node :: addr
  ss_name :: "string option"
  ss_key :: "string list"

text \<open>
  The value of an InputSpec is a plain value or a StreamSpec: \<open>input\<close> and
  \<open>InputSpec.clone\<close> wrap every Node they are given in a StreamSpec.
\<close>

datatype 'a spec_value = Plain "'a val" | Stream StreamSpec

record 'a InputSpec =
  spec_name :: string
  spec_value :: "'a spec_value"
  spec_foreach :: bool

text \<open>
  InputSpec.key is \<open>(name, value.key if hasattr(value, 'key') else value, foreach)\<close>; of the
  values modelled here only a StreamSpec has a \<open>key\<close> attribute.
\<close>

datatype 'a value_key = PlainKey "'a val" | StreamKey "string list"

type_synonym 'a spec_key = "string \<times> 'a value_key \<times> bool"

definition key :: "'a InputSpec \<Rightarrow> 'a spec_key" where
  "key x = (spec_name x,
            (case spec_value x of Stream s \<Rightarrow> StreamKey (ss_key s) | Plain v \<Rightarrow> PlainKey v),
            spec_foreach x)"

text \<open>
  What node.py takes from outside: \<open>hashlib.sha256(s).digest()\<close> (a list of bytes),
  Python's \<open>repr\<close> of a str and of a plain value, and the order in which \<open>sorted\<close> puts
  InputSpecs. That order comes from the classes InputSpec inherits from (Keyed of
  marv\_node/mixins.py and the namedtuple); it is given by a rank into a linear order,
  and \<open>sorted\<close>, a stable sort, is \<open>sort_key\<close> on the rank.
\<close>

record ('a, 'o) extern =
  sha256 :: "string \<Rightarrow> nat list"
  repr_str :: "string \<Rightarrow> string"
  repr_val :: "'a val \<Rightarrow> string"
  rank :: "'a InputSpec \<Rightarrow> 'o"

subsection \<open>repr of the tuple of spec keys\<close>

fun join :: "string \<Rightarrow> string list \<Rightarrow> string" where
  "join sep [] = []"
| "join sep [x] = x"
| "join sep (x # y # ys) = x @ sep @ join sep (y # ys)"

definition repr_tuple :: "string list \<Rightarrow> string" where
  "repr_tuple items =
     ''('' @ (case items of [x] \<Rightarrow> x @ '','' | _ \<Rightarrow> join '', '' items) @ '')''"

definition repr_bool :: "bool \<Rightarrow> string" where
  "repr_bool b = (if b then ''True'' else ''False'')"

definition repr_value_key :: "('a, 'o) extern \<Rightarrow> 'a value_key \<Rightarrow> string" where
  "repr_value_key E vk =
     (case vk of PlainKey v \<Rightarrow> repr_val E v
               | StreamKey ks \<Rightarrow> repr_tuple (map (repr_str E) ks))"

definition repr_key :: "('a, 'o) extern \<Rightarrow> 'a spec_key \<Rightarrow> string" where
  "repr_key E k = (case k of (n, vk, f) \<Rightarrow>
     repr_tuple [repr_str E n, repr_value_key E vk, repr_bool f])"

definition repr_keys :: "('a, 'o) extern \<Rightarrow> 'a spec_key list \<Rightarrow> string" where
  "repr_keys E ks = repr_tuple (map (repr_key E) ks)"

subsection \<open>base64.b32encode, str.lower\<close>

definition b32tab :: string where
  "b32tab = ''ABCDEFGHIJKLMNOPQRSTUVWXYZ234567''"

text \<open>One quantum: five bytes, read as a 40-bit number, give eight characters.\<close>

definition b32_quantum :: "nat list \<Rightarrow> string" where
  "b32_quantum bs =
     (let n = foldl (\<lambda>a b. a * 256 + b) 0 bs
      in map (\<lambda>i. b32tab ! ((n div 32 ^ (7 - i)) mod 32)) [0..<8])"

fun b32_quanta :: "nat \<Rightarrow> nat list \<Rightarrow> string" where
  "b32_quanta 0 s = []"
| "b32_quanta (Suc q) s = b32_quantum (take 5 s) @ b32_quanta q (drop 5 s)"

definition b32encode :: "nat list \<Rightarrow> string" where
  "b32encode s =
     (let leftover = length s mod 5;
          quanta = length s div 5 + (if leftover \<noteq> 0 then 1 else 0);
          s' = (if leftover \<noteq> 0 then s @ replicate (5 - leftover) 0 else s);
          encoded = b32_quanta quanta s'
      in if leftover = 1 then take (length encoded - 6) encoded @ ''======''
         else if leftover = 2 then take (length encoded - 4) encoded @ ''====''
         else if leftover = 3 then take (length encoded - 3) encoded @ ''===''
         else if leftover = 4 then take (length encoded - 1) encoded @ ''=''
         else encoded)"

definition lower_char :: "char \<Rightarrow> char" where
  "lower_char c =
     (let n = (of_char c :: nat) in if 65 \<le> n \<and> n \<le> 90 then char_of (n + 32) else c)"

definition lower :: "string \<Rightarrow> string" where
  "lower s = map lower_char s"

subsection \<open>Node.genhash\<close>

text \<open>
  A specs mapping is a dict (an OrderedDict when it comes from \<open>input\<close>): an association
  list from input name to InputSpec. \<open>values\<close> is \<open>specs.values()\<close>.
\<close>

type_synonym 'a specs = "(string \<times> 'a InputSpec) list"

definition values_of :: "'a specs \<Rightarrow> 'a InputSpec list" where
  "values_of specs = map snd specs"

definition spec_keys :: "('a, 'o::linorder) extern \<Rightarrow> 'a specs \<Rightarrow> 'a spec_key list" where
  "spec_keys E specs = map key (sort_key (rank E) (values_of specs))"

definition genhash :: "('a, 'o::linorder) extern \<Rightarrow> 'a specs \<Rightarrow> string" where
  "genhash E specs =
     (let h = lower (b32encode (sha256 E (repr_keys E (spec_keys E specs))))
      in take (length h - 4) h)"

text \<open>
  The data model's invariant on a specs mapping: every InputSpec is stored under its own
  name, and a name occurs once.
\<close>

definition specs_wf :: "'a specs \<Rightarrow> bool" where
  "specs_wf specs \<longleftrightarrow> distinct (map fst specs) \<and> list_all (\<lambda>(n, x). spec_name x = n) specs"

text \<open>
  The order agrees with the keys on a set of InputSpecs: it ties two of them exactly when
  their keys are equal.
\<close>

definition rank_by_key :: "('a, 'o) extern \<Rightarrow> 'a InputSpec set \<Rightarrow> bool" where
  "rank_by_key E S \<longleftrightarrow> (\<forall>a\<in>S. \<forall>b\<in>S. (rank E a = rank E b) = (key a = key b))"

section \<open>Functions, nodes and the store\<close>

text \<open>
  The \<open>group\<close> argument of a Node is None, False, True or \<open>'ondemand'\<close>; the assertion
  \<open>group in (None, False, True, 'ondemand')\<close> holds of every value of this type.
\<close>

datatype group_flag = GBool bool | Ondemand

typedecl schema

text \<open>
  The function a node wraps: \<open>__name__\<close>, \<open>__module__\<close>, what
  \<open>inspect.isgeneratorfunction\<close> says of it, the attribute \<open>__marv_input_specs__\<close>
  (None when it is not set), and its behaviour: \<open>fn_call\<close> is \<open>func(**inputs)\<close>, the
  generator made (None when the object returned has no \<open>send\<close>), and \<open>fn_send\<close> is
  \<open>gen.send(v)\<close>, the request yielded and the generator after it, or None when the
  generator raises StopIteration.
\<close>

type_synonym 'a bindings = "(string \<times> 'a val) list"

record ('a, 'g, 'r) func =
  fn_name :: string
  fn_module :: string
  fn_isgen :: bool
  marv_input_specs :: "'a specs option"
  fn_call :: "'a bindings \<Rightarrow> 'g option"
  fn_send :: "'g \<Rightarrow> 'a val \<Rightarrow> ('r \<times> 'g) option"

text \<open>
  class Node. The four sets of nodes are lists of addresses; see \<open>set_add\<close> below.
\<close>

record ('a, 'g, 'r) Node =
  func :: "('a, 'g, 'r) func"
  version :: "int option"
  name :: string
  namespace :: string
  fullname :: string
  specs_hash :: string
  header_schema :: "schema option"
  schema :: "schema option"
  specs :: "'a specs"
  group :: group_flag
  deps :: "addr list"
  alldeps :: "addr list"
  consumers :: "addr list"
  dependent :: "addr list"

type_synonym ('a, 'g, 'r) store = "('a, 'g, 'r) Node list"

text \<open>
  Node.key: \<open>_key\<close> is None in the class and node.py never sets it, so the key is
  \<open>'-'.join([specs_hash, fullname])\<close>.
\<close>

definition node_key :: "('a, 'g, 'r) Node \<Rightarrow> string" where
  "node_key n = specs_hash n @ ''-'' @ fullname n"

text \<open>
  Modelled from the spec: Keyed (marv\_node/mixins.py, not among the sources) makes two
  nodes of equal \<open>key\<close> equal and hash alike: "any two nodes with equal identity are
  treated as computing the same artifact". A Python set of nodes therefore holds at most
  one node of each key: \<open>in_set\<close> is \<open>node in s\<close> and \<open>set_add\<close> is \<open>s.add(node)\<close>.
\<close>

definition in_set :: "('a, 'g, 'r) store \<Rightarrow> addr \<Rightarrow> addr list \<Rightarrow> bool" where
  "in_set st a s = list_ex (\<lambda>b. node_key (st ! b) = node_key (st ! a)) s"

definition set_add :: "('a, 'g, 'r) store \<Rightarrow> addr \<Rightarrow> addr list \<Rightarrow> addr list" where
  "set_add st a s = (if in_set st a s then s else s @ [a])"

definition new_StreamSpec :: "('a, 'g, 'r) store \<Rightarrow> addr \<Rightarrow> string option \<Rightarrow> StreamSpec" where
  "new_StreamSpec st node nm =
     \<lparr>ss_node = node, ss_name = nm,
      ss_key = (case nm of None \<Rightarrow> [node_key (st ! node)]
                         | Some n \<Rightarrow> [node_key (st ! node), n])\<rparr>"

text \<open>What a caller passes as a default, a foreach value or a clone override.\<close>

datatype 'a pyobj = PVal "'a val" | PNode addr | PStream StreamSpec

text \<open>\<open>StreamSpec(value) if isinstance(value, Node) else value\<close>\<close>

definition wrap :: "('a, 'g, 'r) store \<Rightarrow> 'a pyobj \<Rightarrow> 'a spec_value" where
  "wrap st v = (case v of PNode a \<Rightarrow> Stream (new_StreamSpec st a None)
                        | PStream s \<Rightarrow> Stream s
                        | PVal x \<Rightarrow> Plain x)"

subsection \<open>input\<close>


subsection \<open>Node.\_\_init\_\_\<close>

fun stream_nodes :: "'a InputSpec list \<Rightarrow> addr list" where
  "stream_nodes [] = []"
| "stream_nodes (x # xs) =
     (case spec_value x of Stream s \<Rightarrow> ss_node s # stream_nodes xs
                         | Plain v \<Rightarrow> stream_nodes xs)"

text \<open>
  The two loops at the end of \<open>__init__\<close>. An assertion that fails leaves the store as
  the loop has changed it so far.
\<close>

fun add_consumers ::
  "addr \<Rightarrow> addr list \<Rightarrow> ('a, 'g, 'r) store \<Rightarrow> ('a, 'g, 'r) store \<times> error option" where
  "add_consumers self [] st = (st, None)"
| "add_consumers self (dep # ds) st =
     (if in_set st self (consumers (st ! dep)) then (st, Some AssertionError)
      else add_consumers self ds
             (st[dep := (st ! dep)\<lparr>consumers := consumers (st ! dep) @ [self]\<rparr>]))"

fun add_dependent ::
  "addr \<Rightarrow> addr list \<Rightarrow> ('a, 'g, 'r) store \<Rightarrow> ('a, 'g, 'r) store \<times> error option" where
  "add_dependent self [] st = (st, None)"
| "add_dependent self (dep # ds) st =
     (if in_set st self (dependent (st ! dep)) then (st, Some AssertionError)
      else add_dependent self ds
             (st[dep := (st ! dep)\<lparr>dependent := dependent (st ! dep) @ [self]\<rparr>]))"

definition Node_init ::
  "('a, 'o::linorder) extern \<Rightarrow> ('a, 'g, 'r) func \<Rightarrow> schema option \<Rightarrow> schema option
     \<Rightarrow> int option \<Rightarrow> string option \<Rightarrow> string option \<Rightarrow> 'a specs option
     \<Rightarrow> group_flag option \<Rightarrow> ('a, 'g, 'r) store
     \<Rightarrow> ('a, 'g, 'r) store \<times> (error + addr)" where
  "Node_init E fn sch hsch ver nm ns sp grp st =
     (let name' = (case nm of None \<Rightarrow> fn_name fn | Some n \<Rightarrow> n);
          namespace' = (case ns of None \<Rightarrow> fn_module fn | Some n \<Rightarrow> n);
          fullname' = (if namespace' = [] then name' else namespace' @ '':'' @ name');
          specs' = (case sp of None \<Rightarrow> [] | Some s \<Rightarrow> s);
          deps' = fold (set_add st) (stream_nodes (values_of specs')) [];
          alldeps' = fold (set_add st) (concat (map (\<lambda>dep. alldeps (st ! dep)) deps')) deps';
          self = length st;
          st1 = st @ [\<lparr>func = fn, version = ver, name = name', namespace = namespace',
                       fullname = fullname', specs_hash = genhash E specs',
                       header_schema = hsch, schema = sch, specs = specs',
                       group = (case grp of Some g \<Rightarrow> g
                                          | None \<Rightarrow> GBool (list_ex spec_foreach (values_of specs'))),
                       deps = deps', alldeps = alldeps', consumers = [], dependent = []\<rparr>]
      in case add_consumers self deps' st1 of
           (st2, Some e) \<Rightarrow> (st2, Inl e)
         | (st2, None) \<Rightarrow>
             (case add_dependent self alldeps' st2 of
                (st3, Some e) \<Rightarrow> (st3, Inl e)
              | (st3, None) \<Rightarrow> (st3, Inr self)))"

subsection \<open>node\<close>

text \<open>
  The decorator \<open>node(schema, header, group, version)\<close> applied to a function (a
  \<open>func\<close> is never a Node, so the TypeError of the first test cannot arise).
\<close>

definition node ::
  "('a, 'o::linorder) extern \<Rightarrow> schema option \<Rightarrow> schema option \<Rightarrow> group_flag option
     \<Rightarrow> int option \<Rightarrow> ('a, 'g, 'r) func \<Rightarrow> ('a, 'g, 'r) store
     \<Rightarrow> ('a, 'g, 'r) store \<times> (error + addr)" where
  "node E sch header grp ver fn st =
     (if \<not> fn_isgen fn then (st, Inl AssertionError)
      else Node_init E (fn\<lparr>marv_input_specs := None\<rparr>) sch header ver None None
             (marv_input_specs fn) grp st)"

subsection \<open>InputSpec.clone and Node.clone\<close>

definition InputSpec_clone ::
  "('a, 'g, 'r) store \<Rightarrow> 'a InputSpec \<Rightarrow> 'a pyobj \<Rightarrow> 'a InputSpec" where
  "InputSpec_clone st x v =
     \<lparr>spec_name = spec_name x, spec_value = wrap st v, spec_foreach = spec_foreach x\<rparr>"

text \<open>
  The dict comprehension of \<open>Node.clone\<close>, over \<open>self.specs.values()\<close>: \<open>kw\<close> loses every
  keyword it pops.
\<close>

fun clone_specs ::
  "('a, 'g, 'r) store \<Rightarrow> 'a InputSpec list \<Rightarrow> (string \<times> 'a pyobj) list \<Rightarrow> 'a specs
     \<Rightarrow> 'a specs \<times> (string \<times> 'a pyobj) list" where
  "clone_specs st [] kw acc = (acc, kw)"
| "clone_specs st (x # xs) kw acc =
     (case map_of kw (spec_name x) of
        None \<Rightarrow> clone_specs st xs kw (AList.update (spec_name x) x acc)
      | Some v \<Rightarrow> clone_specs st xs (AList.delete (spec_name x) kw)
                   (AList.update (spec_name x) (InputSpec_clone st x v) acc))"

definition clone ::
  "('a, 'o::linorder) extern \<Rightarrow> addr \<Rightarrow> (string \<times> 'a pyobj) list \<Rightarrow> ('a, 'g, 'r) store
     \<Rightarrow> ('a, 'g, 'r) store \<times> (error + addr)" where
  "clone E self kw st =
     (case clone_specs st (values_of (specs (st ! self))) kw [] of
        (specs', kw') \<Rightarrow>
          if kw' \<noteq> [] then (st, Inl AssertionError)
          else Node_init E (func (st ! self)) (schema (st ! self)) (header_schema (st ! self))
                 None None None (Some specs') None st)"

section \<open>Node.invoke\<close>

text \<open>
  \<open>invoke\<close> is a generator: it runs to its next \<open>yield\<close>, hands a request to the driver
  and is resumed with the driver's answer. The model is the state machine of that
  generator: a state for each \<open>yield\<close> of the source, holding the local variables that are
  live there, \<open>resume\<close> for the code between one \<open>yield\<close> and the next, and \<open>drive\<close> for the
  requests that a list of answers brings out.

  Modelled from the spec: \<open>get_stream\<close>, \<open>get_logger\<close>, \<open>pull\<close> and \<open>fork\<close>
  (marv\_node/io.py, not among the sources) build the four requests of the interface
  table from their arguments. \<open>Relay\<close> is a request of the wrapped routine, passed on.
  The calls of \<open>log.noisy\<close> are no suspension points and are left out.
\<close>

datatype ('a, 'r) request =
    GetStream addr "string option"
  | GetLogger
  | Pull "'a val"
  | Fork string "'a bindings" bool
  | Relay 'r

datatype outcome = Suspended | Stopped | Raised error

subsection \<open>dict, iteration, format\<close>

definition dict_update :: "'a bindings \<Rightarrow> 'a bindings \<Rightarrow> 'a bindings" where
  "dict_update d ps = fold (\<lambda>(k, v). AList.update k v) ps d"

definition dict_of :: "'a bindings \<Rightarrow> 'a bindings" where
  "dict_of ps = dict_update [] ps"

definition dict_set :: "string \<Rightarrow> 'a val \<Rightarrow> 'a bindings \<Rightarrow> 'a bindings" where
  "dict_set k v d = AList.update k v d"

text \<open>\<open>for x in v\<close>: only a list can be iterated.\<close>

definition iter :: "'a val \<Rightarrow> error + 'a val list" where
  "iter v = (case v of VList xs \<Rightarrow> Inr xs | _ \<Rightarrow> Inl TypeError)"

text \<open>\<open>[[(k, x) for x in v] for k, v in foreach_plain]\<close>\<close>

fun axes :: "'a bindings \<Rightarrow> error + 'a bindings list" where
  "axes [] = Inr []"
| "axes ((k, v) # fp) =
     (case iter v of
        Inl e \<Rightarrow> Inl e
      | Inr xs \<Rightarrow> (case axes fp of Inl e \<Rightarrow> Inl e | Inr r \<Rightarrow> Inr (map (Pair k) xs # r)))"

text \<open>\<open>'{}'.format(i)\<close> of a number from \<open>enumerate\<close> or \<open>count()\<close>: its decimal digits.\<close>

fun string_of_nat :: "nat \<Rightarrow> string" where
  "string_of_nat n =
     (if n < 10 then [char_of (48 + n)]
      else string_of_nat (n div 10) @ [char_of (48 + n mod 10)])"

subsection \<open>The generator\<close>

datatype ('a, 'g) istate =
    S_get_stream "'a InputSpec" "'a InputSpec list" "'a bindings" "'a bindings" "'a bindings"
  | S_get_logger "'a bindings" "'a bindings" "'a bindings"
  | S_pull "'a bindings list" string "'a val" nat "'a bindings"
  | S_fork_stream "'a bindings list" "'a val" "'a bindings list" string "'a val" nat "'a bindings"
  | S_fork_plain "'a bindings list" nat "'a bindings"
  | S_relay 'g

datatype ('a, 'g, 'r) progress =
    Yields "('a, 'r) request" "('a, 'g) istate"
  | Ends
  | Raises error

text \<open>
  Lines 236 to 241. \<open>gen.send\<close> raising StopIteration is caught nowhere: the exception
  leaves both \<open>while True\<close> loops and ends the generator \<open>invoke\<close>.
\<close>

definition relay :: "('a, 'g, 'r) func \<Rightarrow> 'g \<Rightarrow> 'a val \<Rightarrow> ('a, 'g, 'r) progress" where
  "relay fn gen send =
     (case fn_send fn gen send of
        None \<Rightarrow> Ends
      | Some (r, gen') \<Rightarrow> Yields (Relay r) (S_relay gen'))"

definition plain_execution :: "('a, 'g, 'r) func \<Rightarrow> 'a bindings \<Rightarrow> ('a, 'g, 'r) progress" where
  "plain_execution fn inputs =
     (case fn_call fn inputs of
        None \<Rightarrow> Raises AssertionError
      | Some gen \<Rightarrow> relay fn gen VNone)"

text \<open>Line 204, and lines 234 and 235.\<close>

definition dispatch ::
  "('a, 'g, 'r) func \<Rightarrow> 'a bindings option \<Rightarrow> 'a bindings \<Rightarrow> 'a bindings \<Rightarrow> 'a bindings
     \<Rightarrow> ('a, 'g, 'r) progress" where
  "dispatch fn inputs common foreach_plain foreach_stream =
     (if foreach_plain \<noteq> [] \<or> foreach_stream \<noteq> []
      then Yields GetLogger (S_get_logger common foreach_plain foreach_stream)
      else plain_execution fn (case inputs of None \<Rightarrow> dict_of common | Some i \<Rightarrow> i))"

text \<open>Lines 194 to 202.\<close>

fun resolve ::
  "('a, 'g, 'r) func \<Rightarrow> 'a InputSpec list \<Rightarrow> 'a bindings \<Rightarrow> 'a bindings \<Rightarrow> 'a bindings
     \<Rightarrow> ('a, 'g, 'r) progress" where
  "resolve fn [] common foreach_plain foreach_stream =
     dispatch fn None common foreach_plain foreach_stream"
| "resolve fn (spec # rest) common foreach_plain foreach_stream =
     (case spec_value spec of
        Stream s \<Rightarrow>
          Yields (GetStream (ss_node s) (ss_name s))
            (S_get_stream spec rest common foreach_plain foreach_stream)
      | Plain v \<Rightarrow>
          if spec_foreach spec
          then resolve fn rest common (foreach_plain @ [(spec_name spec, v)]) foreach_stream
          else resolve fn rest (common @ [(spec_name spec, v)]) foreach_plain foreach_stream)"

text \<open>Lines 226 to 231.\<close>

fun fork_plain :: "'a bindings list \<Rightarrow> nat \<Rightarrow> 'a bindings \<Rightarrow> ('a, 'g, 'r) progress" where
  "fork_plain [] i common = Ends"
| "fork_plain (inputs # rest) i common =
     Yields (Fork (string_of_nat i) (dict_update (dict_of inputs) common) False)
       (S_fork_plain rest (Suc i) common)"

text \<open>Lines 213 to 224: the \<open>for\<close> loop, and the next \<open>pull\<close> when it is through.\<close>

fun fork_stream ::
  "'a bindings list \<Rightarrow> 'a val \<Rightarrow> 'a bindings list \<Rightarrow> string \<Rightarrow> 'a val \<Rightarrow> nat \<Rightarrow> 'a bindings
     \<Rightarrow> ('a, 'g, 'r) progress" where
  "fork_stream [] v cross nm stream idx common =
     Yields (Pull stream) (S_pull cross nm stream idx common)"
| "fork_stream (inputs # rest) v cross nm stream idx common =
     Yields (Fork (string_of_nat idx) (dict_set nm v (dict_update (dict_of inputs) common)) False)
       (S_fork_stream rest v cross nm stream (Suc idx) common)"

text \<open>Lines 206 to 213, after the logger has come.\<close>

definition fanout :: "'a bindings \<Rightarrow> 'a bindings \<Rightarrow> 'a bindings \<Rightarrow> ('a, 'g, 'r) progress" where
  "fanout common foreach_plain foreach_stream =
     (case axes foreach_plain of
        Inl e \<Rightarrow> Raises e
      | Inr ax \<Rightarrow>
          let cross = product_lists ax
          in if foreach_stream \<noteq> []
             then (if length foreach_stream \<noteq> 1 then Raises AssertionError
                   else case hd foreach_stream of (nm, stream) \<Rightarrow>
                          Yields (Pull stream) (S_pull cross nm stream 0 common))
             else fork_plain cross 0 common)"

fun resume ::
  "('a, 'g, 'r) func \<Rightarrow> ('a, 'g) istate \<Rightarrow> 'a val \<Rightarrow> ('a, 'g, 'r) progress" where
  "resume fn (S_get_stream spec rest common foreach_plain foreach_stream) a =
     (if spec_foreach spec
      then resolve fn rest common foreach_plain (foreach_stream @ [(spec_name spec, a)])
      else resolve fn rest (common @ [(spec_name spec, a)]) foreach_plain foreach_stream)"
| "resume fn (S_get_logger common foreach_plain foreach_stream) a =
     fanout common foreach_plain foreach_stream"
| "resume fn (S_pull cross nm stream idx common) a =
     (if a = VNone then Ends else fork_stream cross a cross nm stream idx common)"
| "resume fn (S_fork_stream rest v cross nm stream idx common) a =
     fork_stream rest v cross nm stream idx common"
| "resume fn (S_fork_plain rest i common) a = fork_plain rest i common"
| "resume fn (S_relay gen) a = relay fn gen a"

definition invoke ::
  "('a, 'g, 'r) Node \<Rightarrow> 'a bindings option \<Rightarrow> ('a, 'g, 'r) progress" where
  "invoke self inputs =
     (case inputs of
        None \<Rightarrow> resolve (func self) (values_of (specs self)) [] [] []
      | Some i \<Rightarrow> dispatch (func self) (Some i) [] [] [])"

text \<open>
  The driver: it starts the generator and answers each request with the next of
  \<open>answers\<close>. The result is the requests it has seen and how the generator stands: suspended
  at a request not yet answered, stopped (StopIteration), or failed.
\<close>

fun drive ::
  "('a, 'g, 'r) func \<Rightarrow> ('a, 'g, 'r) progress \<Rightarrow> 'a val list
     \<Rightarrow> ('a, 'r) request list \<times> outcome" where
  "drive fn (Raises e) answers = ([], Raised e)"
| "drive fn Ends answers = ([], Stopped)"
| "drive fn (Yields q s) [] = ([q], Suspended)"
| "drive fn (Yields q s) (a # answers) =
     (case drive fn (resume fn s a) answers of (qs, out) \<Rightarrow> (q # qs, out))"

definition run ::
  "('a, 'g, 'r) Node \<Rightarrow> 'a bindings option \<Rightarrow> 'a val list \<Rightarrow> ('a, 'r) request list \<times> outcome" where
  "run self inputs answers = drive (func self) (invoke self inputs) answers"

text \<open>
  The wrapped routine run on its own: one generator, started with \<open>send(None)\<close> and
  resumed with each answer.
\<close>

fun routine ::
  "('a, 'g, 'r) func \<Rightarrow> 'g \<Rightarrow> 'a val \<Rightarrow> 'a val list \<Rightarrow> 'r list \<times> outcome" where
  "routine fn gen send [] =
     (case fn_send fn gen send of None \<Rightarrow> ([], Stopped) | Some (r, gen') \<Rightarrow> ([r], Suspended))"
| "routine fn gen send (a # answers) =
     (case fn_send fn gen send of
        None \<Rightarrow> ([], Stopped)
      | Some (r, gen') \<Rightarrow> (case routine fn gen' a answers of (rs, out) \<Rightarrow> (r # rs, out)))"

section \<open>Concrete inputs\<close>

text \<open>
  A stand-in for the interpreter, used where a theorem is applied to a concrete input: plain
  values are numbers and lists of them, \<open>repr\<close> of a str puts it in quotes, InputSpecs are
  ordered by name, and the digest is the first 32 bytes of the text (filled up with zeros).
\<close>

fun repr_nat_val :: "nat val \<Rightarrow> string" where
  "repr_nat_val VNone = ''None''"
| "repr_nat_val (VAtom n) = string_of_nat n"
| "repr_nat_val (VList xs) = ''['' @ join '', '' (map repr_nat_val xs) @ '']''"

definition ex_extern :: "(nat, string) extern" where
  "ex_extern =
     \<lparr>sha256 = (\<lambda>s. take 32 (map of_char s @ replicate 32 0)),
      repr_str = (\<lambda>s. [CHR 0x27] @ s @ [CHR 0x27]),
      repr_val = repr_nat_val,
      rank = spec_name\<rparr>"

definition ex_spec_a :: "nat InputSpec" where
  "ex_spec_a = \<lparr>spec_name = ''a'', spec_value = Plain (VAtom 1), spec_foreach = False\<rparr>"

definition ex_spec_b :: "nat InputSpec" where
  "ex_spec_b =
     \<lparr>spec_name = ''b'', spec_value = Plain (VList [VAtom 2, VAtom 3]), spec_foreach = True\<rparr>"


section \<open>The identity hash\<close>

lemma key_name: "fst (key x) = spec_name x"
  by (simp add: key_def)

lemma specs_wf_distinct_names:
  assumes "specs_wf sp"
  shows "distinct (map spec_name (values_of sp))"
proof -
  have "map spec_name (values_of sp) = map fst sp"
    using assms by (induction sp) (auto simp: specs_wf_def values_of_def)
  then show ?thesis using assms by (simp add: specs_wf_def)
qed

lemma distinct_names_keys:
  assumes "distinct (map spec_name xs)"
  shows "distinct (map key xs)"
proof -
  have "map spec_name xs = map fst (map key xs)" by (simp add: key_name)
  then show ?thesis using assms by (metis distinct_map)
qed

lemma rank_inj_on_distinct_keys:
  assumes d: "distinct (map key xs)" and rk: "rank_by_key E S" and sub: "set xs \<subseteq> S"
  shows "inj_on (rank E) (set xs)"
proof (rule inj_onI)
  fix a b assume ab: "a \<in> set xs" "b \<in> set xs" and r: "rank E a = rank E b"
  then have "key a = key b" using rk sub by (auto simp: rank_by_key_def)
  then show "a = b" using d ab by (meson distinct_map inj_onD)
qed

lemma rank_image_subset:
  assumes ks: "key ` set xs \<subseteq> key ` set ys" and rk: "rank_by_key E (set xs \<union> set ys)"
  shows "rank E ` set xs \<subseteq> rank E ` set ys"
proof
  fix r assume "r \<in> rank E ` set xs"
  then obtain a where a: "a \<in> set xs" "r = rank E a" by blast
  then have "key a \<in> key ` set ys" using ks by blast
  then obtain b where b: "b \<in> set ys" "key b = key a" by force
  then have "rank E a = rank E b" using rk a by (simp add: rank_by_key_def)
  then show "r \<in> rank E ` set ys" using a b by blast
qed

lemma sorted_keys_unique:
  assumes dx: "distinct (map key xs)" and dy: "distinct (map key ys)"
    and ks: "key ` set xs = key ` set ys"
    and rk: "rank_by_key E (set xs \<union> set ys)"
  shows "map key (sort_key (rank E) xs) = map key (sort_key (rank E) ys)"
proof -
  let ?xs = "sort_key (rank E) xs" and ?ys = "sort_key (rank E) ys"
  have dxs: "distinct xs" "distinct ys" using dx dy by (auto simp: distinct_map)
  have d1: "distinct (map (rank E) ?xs)"
    using rank_inj_on_distinct_keys[OF dx rk] dxs by (simp add: distinct_map)
  have d2: "distinct (map (rank E) ?ys)"
    using rank_inj_on_distinct_keys[OF dy rk] dxs by (simp add: distinct_map)
  have rk': "rank_by_key E (set ys \<union> set xs)" using rk by (simp add: Un_commute)
  have img: "rank E ` set xs = rank E ` set ys"
    using rank_image_subset[of xs ys E] rank_image_subset[of ys xs E] ks rk rk' by blast
  have req: "map (rank E) ?xs = map (rank E) ?ys"
    by (rule sorted_distinct_set_unique) (use d1 d2 img in simp_all)
  then have len: "length ?xs = length ?ys" by (metis length_map)
  show ?thesis
  proof (rule nth_equalityI)
    show "length (map key ?xs) = length (map key ?ys)" using len by simp
  next
    fix i assume "i < length (map key ?xs)"
    then have ix: "i < length ?xs" and iy: "i < length ?ys" using len by simp_all
    have "rank E (?xs ! i) = rank E (?ys ! i)"
      using req ix iy by (metis nth_map)
    moreover have "?xs ! i \<in> set xs \<union> set ys" using ix by (metis UnI1 nth_mem set_sort)
    moreover have "?ys ! i \<in> set xs \<union> set ys" using iy by (metis UnI2 nth_mem set_sort)
    ultimately have "key (?xs ! i) = key (?ys ! i)" using rk by (simp add: rank_by_key_def)
    then show "map key ?xs ! i = map key ?ys ! i" using ix iy by simp
  qed
qed

lemma spec_keys_order_independent:
  assumes "specs_wf specs1" and "specs_wf specs2"
    and "key ` set (values_of specs1) = key ` set (values_of specs2)"
    and "rank_by_key E (set (values_of specs1) \<union> set (values_of specs2))"
  shows "spec_keys E specs1 = spec_keys E specs2"
  unfolding spec_keys_def
  by (rule sorted_keys_unique)
     (use assms in \<open>simp_all add: distinct_names_keys specs_wf_distinct_names\<close>)

lemma b32encode_leftover2:
  assumes "length s mod 5 = 2"
  shows "\<exists>body. lower (b32encode s) = body @ ''===='' "
  using assms by (simp add: b32encode_def Let_def lower_def lower_char_def)

lemma genhash_padding:
  assumes "length (sha256 E (repr_keys E (spec_keys E sp))) = 32"
  shows "genhash E sp @ ''===='' =
         lower (b32encode (sha256 E (repr_keys E (spec_keys E sp))))"
proof -
  let ?d = "sha256 E (repr_keys E (spec_keys E sp))"
  have "length ?d mod 5 = 2" using assms by simp
  then obtain body where b: "lower (b32encode ?d) = body @ ''===='' "
    using b32encode_leftover2 by blast
  show ?thesis unfolding genhash_def Let_def b by simp
qed

text \<open>
  C1. Two specs mappings (each InputSpec under its own name, names distinct) whose
  InputSpecs have the same set of keys get the same hash from \<open>genhash\<close>, in whatever
  order they were filled, when \<open>sorted\<close> orders InputSpecs as their keys. The hash is
  the lower-cased base-32 text of the SHA-256 digest of the repr of the sorted keys without
  its last four characters, and with a digest of 32 bytes those four are the padding.
\<close>

theorem genhash_order_independent:
  assumes "specs_wf specs1" and "specs_wf specs2"
    and "key ` set (values_of specs1) = key ` set (values_of specs2)"
    and "rank_by_key E (set (values_of specs1) \<union> set (values_of specs2))"
  shows "genhash E specs1 = genhash E specs2 \<and>
         (length (sha256 E (repr_keys E (spec_keys E specs1))) = 32 \<longrightarrow>
          genhash E specs1 @ ''===='' =
            lower (b32encode (sha256 E (repr_keys E
              (map key (sort_key (rank E) (values_of specs1)))))))"
proof -
  have "spec_keys E specs1 = spec_keys E specs2"
    using assms by (rule spec_keys_order_independent)
  then have "genhash E specs1 = genhash E specs2" by (simp add: genhash_def)
  moreover have "length (sha256 E (repr_keys E (spec_keys E specs1))) = 32 \<longrightarrow>
      genhash E specs1 @ ''===='' =
        lower (b32encode (sha256 E (repr_keys E
          (map key (sort_key (rank E) (values_of specs1))))))"
    using genhash_padding[of E specs1] by (simp add: spec_keys_def)
  ultimately show ?thesis by blast
qed

theorem genhash_order_independent_witness:
  "[(''b'', ex_spec_b), (''a'', ex_spec_a)] \<noteq> [(''a'', ex_spec_a), (''b'', ex_spec_b)] \<and>
   genhash ex_extern [(''b'', ex_spec_b), (''a'', ex_spec_a)] =
     genhash ex_extern [(''a'', ex_spec_a), (''b'', ex_spec_b)] \<and>
   genhash ex_extern [(''b'', ex_spec_b), (''a'', ex_spec_a)] @ ''===='' =
     lower (b32encode (sha256 ex_extern (repr_keys ex_extern
       (map key (sort_key (rank ex_extern)
          (values_of [(''b'', ex_spec_b), (''a'', ex_spec_a)]))))))"
proof -
  have wf1: "specs_wf [(''b'', ex_spec_b), (''a'', ex_spec_a)]"
    by (simp add: specs_wf_def ex_spec_a_def ex_spec_b_def)
  have wf2: "specs_wf [(''a'', ex_spec_a), (''b'', ex_spec_b)]"
    by (simp add: specs_wf_def ex_spec_a_def ex_spec_b_def)
  have ks: "key ` set (values_of [(''b'', ex_spec_b), (''a'', ex_spec_a)]) =
            key ` set (values_of [(''a'', ex_spec_a), (''b'', ex_spec_b)])"
    by (auto simp: values_of_def)
  have rk: "rank_by_key ex_extern
      (set (values_of [(''b'', ex_spec_b), (''a'', ex_spec_a)]) \<union>
       set (values_of [(''a'', ex_spec_a), (''b'', ex_spec_b)]))"
    by (simp add: rank_by_key_def values_of_def ex_extern_def key_def
        ex_spec_a_def ex_spec_b_def)
  have len: "length (sha256 ex_extern s) = 32" for s
    by (simp add: ex_extern_def)
  have ne: "[(''b'', ex_spec_b), (''a'', ex_spec_a)] \<noteq> [(''a'', ex_spec_a), (''b'', ex_spec_b)]"
    by simp
  from genhash_order_independent[OF wf1 wf2 ks rk] len ne show ?thesis
    by blast
qed

section \<open>Declaring inputs\<close>





end
